theory Spec2Isabelle
  imports Complex_Main "HOL-Library.Sublist"
begin

section \<open>Python string primitives used by the dashboard server\<close>

text \<open>
  Text is modelled as \<^typ>\<open>string\<close>; a character stands for a code point below 256.
  The functions below follow the Python built-ins the handler calls on such text.
\<close>

definition whitespace :: "char list" where
  "whitespace = [CHR 0x09, CHR 0x0A, CHR 0x0B, CHR 0x0C, CHR 0x0D,
                 CHR 0x1C, CHR 0x1D, CHR 0x1E, CHR 0x1F, CHR 0x20, CHR 0x85, CHR 0xA0]"

definition isspace :: "char \<Rightarrow> bool" where
  "isspace c = (c \<in> set whitespace)"

text \<open>\<open>s.strip()\<close>: drop leading and trailing whitespace.\<close>

definition lstrip :: "string \<Rightarrow> string" where
  "lstrip s = dropWhile isspace s"

definition rstrip :: "string \<Rightarrow> string" where
  "rstrip s = rev (dropWhile isspace (rev s))"

definition strip :: "string \<Rightarrow> string" where
  "strip s = rstrip (lstrip s)"

text \<open>\<open>s.split(sep)\<close> for a one-character separator: never empty, keeps empty fields.\<close>

fun split_on :: "char \<Rightarrow> string \<Rightarrow> string list" where
  "split_on c [] = [[]]"
| "split_on c (x # xs) =
     (if x = c then [] # split_on c xs
      else (case split_on c xs of [] \<Rightarrow> [[x]] | p # ps \<Rightarrow> (x # p) # ps))"

text \<open>\<open>s.split()\<close>: the maximal runs of non-whitespace characters.\<close>

function split_ws :: "string \<Rightarrow> string list" where
  "split_ws s =
     (case dropWhile isspace s of
        [] \<Rightarrow> []
      | x # xs \<Rightarrow> takeWhile (\<lambda>c. \<not> isspace c) (x # xs)
                 # split_ws (dropWhile (\<lambda>c. \<not> isspace c) xs))"
  by pat_completeness auto
termination
proof (relation "measure length")
  show "wf (measure length)" by simp
next
  fix s :: string and x xs
  assume a: "dropWhile isspace s = x # xs"
  have "length (dropWhile (\<lambda>c. \<not> isspace c) xs) \<le> length xs"
    by (rule length_dropWhile_le)
  moreover have "length (dropWhile isspace s) \<le> length s"
    by (rule length_dropWhile_le)
  ultimately show "(dropWhile (\<lambda>c. \<not> isspace c) xs, s) \<in> measure length"
    using a by simp
qed

text \<open>\<open>sub in s\<close>: \<open>sub\<close> occurs as a contiguous piece of \<open>s\<close>.\<close>

fun str_in :: "string \<Rightarrow> string \<Rightarrow> bool" where
  "str_in sub [] = (sub = [])"
| "str_in sub (x # xs) = (prefix sub (x # xs) \<or> str_in sub xs)"

text \<open>\<open>s.lower()\<close> on code points below 256: A-Z and the accented capitals move by 32.\<close>

definition lower_char :: "char \<Rightarrow> char" where
  "lower_char c =
     (let n = (of_char c :: nat)
      in if (65 \<le> n \<and> n \<le> 90) \<or> (192 \<le> n \<and> n \<le> 222 \<and> n \<noteq> 215)
         then char_of (n + 32) else c)"

definition lower :: "string \<Rightarrow> string" where
  "lower s = map lower_char s"

text \<open>\<open>s.startswith(p)\<close>.\<close>

definition startswith :: "string \<Rightarrow> string \<Rightarrow> bool" where
  "startswith s p = prefix p s"

text \<open>\<open>xs[i]\<close> for the literal indices the handler uses: out of range raises.\<close>

datatype error = IndexError | ValueError | TypeError | AttributeError
  | JSONDecodeError | UnicodeDecodeError | OSError | OverflowError | MemoryError

definition index :: "'a list \<Rightarrow> nat \<Rightarrow> error + 'a" where
  "index xs i = (if i < length xs then Inr (xs ! i) else Inl IndexError)"

section \<open>The environment of a request\<close>

text \<open>
  A file on disk is missing, present but failing on \<open>open\<close>/\<open>read\<close>, or present with
  its decoded text (line ends already translated to \<open>\n\<close>, as text mode does).
\<close>

datatype disk_file = Missing | Unreadable error | Content string

definition exists :: "disk_file \<Rightarrow> bool" where
  "exists f = (f \<noteq> Missing)"

definition read_file :: "disk_file \<Rightarrow> error + string" where
  "read_file f = (case f of Missing \<Rightarrow> Inl OSError | Unreadable e \<Rightarrow> Inl e | Content s \<Rightarrow> Inr s)"

text \<open>\<open>for line in f\<close>: the lines of the text, each keeping its \<open>\n\<close>.\<close>

fun file_lines :: "string \<Rightarrow> string list" where
  "file_lines [] = []"
| "file_lines (x # xs) =
     (if x = CHR 0x0A then [x] # file_lines xs
      else (case file_lines xs of [] \<Rightarrow> [[x]] | l # ls \<Rightarrow> (x # l) # ls))"

section \<open>Results reader: \<open>get_benchmark_data\<close>\<close>

text \<open>
  The built-ins \<open>float\<close> and \<open>time.time\<close> are parameters: \<open>pyfloat tok\<close> is \<open>None\<close> where
  \<open>float(tok)\<close> raises ValueError, and \<open>now\<close> is the clock reading. Float values have
  the abstract type \<open>'f\<close>; the float literals of the source are written as decimals.
\<close>

record opt_entry =
  rank :: int
  gflops :: real
  time :: real
  opt :: string
  march :: string
  size_label :: string

record 'f benchmark_data =
  baseline :: "string \<rightharpoonup> 'f"
  optimizations :: "opt_entry list"
  timestamp :: 'f

definition fixed_optimizations :: "opt_entry list" where
  "fixed_optimizations =
     [\<lparr>rank = 1, gflops = 4.56, time = 0.000, opt = ''-O2'', march = ''Autodetect'', size_label = ''micro''\<rparr>,
      \<lparr>rank = 2, gflops = 4.50, time = 0.000, opt = ''-O3'', march = ''None'', size_label = ''micro''\<rparr>,
      \<lparr>rank = 3, gflops = 2.59, time = 0.104, opt = ''-O3'', march = ''V2'', size_label = ''small''\<rparr>]"

text \<open>
  The body of the loop (lines 60-65) on one line: \<open>Inr None\<close> when the guard rejects the
  line, \<open>Inr (Some (label, value))\<close> for the entry it stores, \<open>Inl e\<close> when it raises.
\<close>

definition parse_line :: "(string \<Rightarrow> 'f option) \<Rightarrow> string \<Rightarrow> error + (string \<times> 'f) option" where
  "parse_line pyfloat line =
     (if CHR '':'' \<in> set line \<and> str_in ''GFLOPS'' line then
        (let parts = split_on CHR '':'' (strip line) in
         case index parts 0 of
           Inl e \<Rightarrow> Inl e
         | Inr p0 \<Rightarrow>
            (let label = strip p0 in
             case index parts 1 of
               Inl e \<Rightarrow> Inl e
             | Inr p1 \<Rightarrow>
                (case index (split_ws (strip p1)) 0 of
                   Inl e \<Rightarrow> Inl e
                 | Inr gflops_part \<Rightarrow>
                    (case pyfloat gflops_part of
                       None \<Rightarrow> Inl ValueError
                     | Some v \<Rightarrow> Inr (Some (label, v))))))
      else Inr None)"

text \<open>The loop over the lines, updating \<open>data['baseline']\<close>; a raise ends it.\<close>

fun load_baseline ::
  "(string \<Rightarrow> 'f option) \<Rightarrow> (string \<rightharpoonup> 'f) \<Rightarrow> string list \<Rightarrow> error + (string \<rightharpoonup> 'f)" where
  "load_baseline pyfloat m [] = Inr m"
| "load_baseline pyfloat m (line # ls) =
     (case parse_line pyfloat line of
        Inl e \<Rightarrow> Inl e
      | Inr None \<Rightarrow> load_baseline pyfloat m ls
      | Inr (Some (k, v)) \<Rightarrow> load_baseline pyfloat (m(k \<mapsto> v)) ls)"

definition get_benchmark_data ::
  "(string \<Rightarrow> 'f option) \<Rightarrow> 'f \<Rightarrow> disk_file \<Rightarrow> error + 'f benchmark_data" where
  "get_benchmark_data pyfloat now baseline_file =
     (if exists baseline_file then
        (case read_file baseline_file of
           Inl e \<Rightarrow> Inl e
         | Inr content \<Rightarrow>
            (case load_baseline pyfloat Map.empty (file_lines content) of
               Inl e \<Rightarrow> Inl e
             | Inr m \<Rightarrow>
                Inr \<lparr>baseline = m, optimizations = fixed_optimizations, timestamp = now\<rparr>))
      else Inr \<lparr>baseline = Map.empty, optimizations = fixed_optimizations, timestamp = now\<rparr>)"

section \<open>System info reporter: \<open>get_system_info\<close>\<close>

text \<open>A key that the returned dict lacks is \<open>None\<close> in the record.\<close>

record 'f system_info =
  processor :: string
  cores :: int
  sys_timestamp :: "'f option"

text \<open>The loop of lines 86-90 over the lines of the descriptor.\<close>

fun scan_cpuinfo :: "string \<Rightarrow> int \<Rightarrow> string list \<Rightarrow> error + (string \<times> int)" where
  "scan_cpuinfo proc cnt [] = Inr (proc, cnt)"
| "scan_cpuinfo proc cnt (line # ls) =
     (if str_in ''model name'' (lower line) then
        (case index (split_on CHR '':'' line) 1 of
           Inl e \<Rightarrow> Inl e
         | Inr p \<Rightarrow> scan_cpuinfo (strip p) cnt ls)
      else if startswith line ''processor'' then scan_cpuinfo proc (cnt + 1) ls
      else scan_cpuinfo proc cnt ls)"

text \<open>The body of the \<open>try\<close> block, its exceptions as values.\<close>

definition system_info_try :: "'f \<Rightarrow> disk_file \<Rightarrow> error + 'f system_info" where
  "system_info_try now cpuinfo_file =
     (case read_file cpuinfo_file of
        Inl e \<Rightarrow> Inl e
      | Inr cpuinfo \<Rightarrow>
         (case scan_cpuinfo ''Unknown'' 0 (split_on CHR 0x0A cpuinfo) of
            Inl e \<Rightarrow> Inl e
          | Inr (proc, cnt) \<Rightarrow>
             Inr \<lparr>processor = proc, cores = cnt, sys_timestamp = Some now\<rparr>))"

definition fallback_info :: "'f system_info" where
  "fallback_info = \<lparr>processor = ''Neoverse System'', cores = 16, sys_timestamp = None\<rparr>"

definition get_system_info :: "'f \<Rightarrow> disk_file \<Rightarrow> 'f system_info" where
  "get_system_info now cpuinfo_file =
     (case system_info_try now cpuinfo_file of Inl e \<Rightarrow> fallback_info | Inr info \<Rightarrow> info)"

section \<open>Benchmark trigger: \<open>run_benchmark\<close>\<close>

text \<open>Values as \<open>json.loads\<close> builds them; a dict is a list of pairs with distinct keys.\<close>

datatype 'f json = JNull | JBool bool | JInt int | JFloat 'f | JStr string
  | JArr "'f json list" | JObj "(string \<times> 'f json) list"

text \<open>
  The script on disk: absent, or present with what \<open>subprocess.run\<close> does on it
  (\<open>Inl\<close>: it raises before the script runs; \<open>Inr rc\<close>: the script exits with \<open>rc\<close>).
\<close>

datatype script = Absent | Present "error + int"

datatype event = ThreadStarted | ScriptRun | FailurePrinted

text \<open>What the background thread does, as the events it causes.\<close>

definition run_async :: "script \<Rightarrow> event list" where
  "run_async script_path =
     (case script_path of
        Absent \<Rightarrow> []
      | Present (Inl e) \<Rightarrow> [FailurePrinted]
      | Present (Inr rc) \<Rightarrow> (if rc = 0 then [ScriptRun] else [ScriptRun, FailurePrinted]))"

record 'f run_result =
  status :: string
  benchmark_type :: "'f json"

definition run_benchmark :: "script \<Rightarrow> 'f json \<Rightarrow> 'f run_result \<times> event list" where
  "run_benchmark script_path btype =
     (\<lparr>status = ''started'', benchmark_type = btype\<rparr>,
      ThreadStarted # run_async script_path)"

section \<open>The request handlers\<close>

record request =
  path :: string
  content_length :: "string option"
  rfile :: string

datatype 'f payload = BenchmarkData "'f benchmark_data" | SystemInfo "'f system_info"
  | RunResult "'f run_result"

text \<open>
  What the client receives: \<open>send_api_response\<close> (status 200 with a JSON body),
  \<open>send_error\<close>, or whatever the static file handler of the base class answers.
\<close>

datatype 'f response = ApiResponse "'f payload" | ErrorResponse nat | StaticResponse string

fun status_code :: "'f response \<Rightarrow> nat option" where
  "status_code (ApiResponse p) = Some 200"
| "status_code (ErrorResponse n) = Some n"
| "status_code (StaticResponse p) = None"

text \<open>\<open>d.get(k, default)\<close>: only a dict has the method.\<close>

definition dict_get :: "'f json \<Rightarrow> string \<Rightarrow> 'f json \<Rightarrow> error + 'f json" where
  "dict_get d k dflt =
     (case d of
        JObj kvs \<Rightarrow> Inr (case map_of kvs k of None \<Rightarrow> dflt | Some v \<Rightarrow> v)
      | _ \<Rightarrow> Inl AttributeError)"

text \<open>
  \<open>rfile.read(n)\<close> on the bytes the client sent before closing. The argument must fit
  a signed 64-bit size (OverflowError otherwise) and be -1 or non-negative (ValueError
  otherwise); -1 reads everything, and a non-negative \<open>n\<close> first allocates a buffer of
  \<open>n\<close> bytes. The allocator is a parameter: \<open>alloc n\<close> is the exception that allocating
  \<open>n\<close> bytes raises (MemoryError, or OverflowError for a size no bytes object can have),
  \<open>None\<close> when the buffer is granted.
\<close>

definition rfile_read :: "(int \<Rightarrow> error option) \<Rightarrow> string \<Rightarrow> int \<Rightarrow> error + string" where
  "rfile_read alloc bytes n =
     (if n < - (2 ^ 63) then Inl OverflowError
      else if 2 ^ 63 \<le> n then Inl OverflowError
      else if n < - 1 then Inl ValueError
      else if n = - 1 then Inr bytes
      else (case alloc n of
              Some e \<Rightarrow> Inl e
            | None \<Rightarrow> Inr (take (nat n) bytes)))"

text \<open>
  \<open>do_POST\<close>. The built-in \<open>int\<close> on a header value and \<open>json.loads\<close> after
  \<open>decode('utf-8')\<close> are parameters; a missing header reads as Python's \<open>None\<close>, on
  which \<open>int\<close> raises TypeError. \<open>Inl e\<close>: the handler raises \<open>e\<close> and sends nothing.
\<close>

definition do_POST ::
  "(string \<Rightarrow> int option) \<Rightarrow> (string \<Rightarrow> error + 'f json) \<Rightarrow> (int \<Rightarrow> error option) \<Rightarrow> script
     \<Rightarrow> request \<Rightarrow> error + ('f response \<times> event list)" where
  "do_POST pyint loads alloc script_path req =
     (if path req = ''/api/run-benchmark'' then
        (case content_length req of
           None \<Rightarrow> Inl TypeError
         | Some h \<Rightarrow>
            (case pyint h of
               None \<Rightarrow> Inl ValueError
             | Some n \<Rightarrow>
                (case rfile_read alloc (rfile req) n of
                   Inl e \<Rightarrow> Inl e
                 | Inr post_data \<Rightarrow>
                    (case loads post_data of
                       Inl e \<Rightarrow> Inl e
                     | Inr data \<Rightarrow>
                        (case dict_get data ''type'' (JStr ''baseline'') of
                           Inl e \<Rightarrow> Inl e
                         | Inr t \<Rightarrow>
                            (let (result, events) = run_benchmark script_path t
                             in Inr (ApiResponse (RunResult result), events)))))))
      else Inr (ErrorResponse 404, []))"

text \<open>\<open>do_GET\<close>: the two API routes, everything else to the static file handler.\<close>

definition do_GET ::
  "(string \<Rightarrow> 'f option) \<Rightarrow> 'f \<Rightarrow> disk_file \<Rightarrow> disk_file \<Rightarrow> request \<Rightarrow> error + 'f response" where
  "do_GET pyfloat now baseline_file cpuinfo_file req =
     (if path req = ''/api/data'' then
        (case get_benchmark_data pyfloat now baseline_file of
           Inl e \<Rightarrow> Inl e
         | Inr d \<Rightarrow> Inr (ApiResponse (BenchmarkData d)))
      else if path req = ''/api/system'' then
        Inr (ApiResponse (SystemInfo (get_system_info now cpuinfo_file)))
      else Inr (StaticResponse (path req)))"

section \<open>Notions used to state the properties\<close>

text \<open>
  A line of the results summary as the format describes it: a result line
  \<open><label>: <float> GFLOPS<rest>\<close>, or any other text. \<open>well_formed\<close> says that a
  result line has a colon-free label and a token that \<open>float\<close> accepts, and that another
  line lacks the colon or the substring GFLOPS; \<open>entry\<close> is the pair a result line denotes.
\<close>

datatype summary_line = Result string string string | Other string

fun render :: "summary_line \<Rightarrow> string" where
  "render (Result lbl tok rest) = lbl @ '': '' @ tok @ '' GFLOPS'' @ rest"
| "render (Other s) = s"

fun well_formed :: "(string \<Rightarrow> 'f option) \<Rightarrow> summary_line \<Rightarrow> bool" where
  "well_formed pyfloat (Result lbl tok rest) =
     (CHR '':'' \<notin> set lbl \<and> tok \<noteq> [] \<and> (\<forall>c\<in>set tok. \<not> isspace c \<and> c \<noteq> CHR '':'')
      \<and> pyfloat tok \<noteq> None)"
| "well_formed pyfloat (Other s) = (CHR '':'' \<notin> set s \<or> \<not> str_in ''GFLOPS'' s)"

fun entry :: "(string \<Rightarrow> 'f option) \<Rightarrow> summary_line \<Rightarrow> (string \<times> 'f) option" where
  "entry pyfloat (Result lbl tok rest) =
     (case pyfloat tok of None \<Rightarrow> None | Some v \<Rightarrow> Some (strip lbl, v))"
| "entry pyfloat (Other s) = None"

text \<open>The line test of \<open>get_system_info\<close>, and the field between the first two colons.\<close>

definition mentions_model_name :: "string \<Rightarrow> bool" where
  "mentions_model_name line = str_in ''model name'' (lower line)"

definition colon_field :: "string \<Rightarrow> string" where
  "colon_field line =
     takeWhile (\<lambda>c. c \<noteq> CHR '':'') (tl (dropWhile (\<lambda>c. c \<noteq> CHR '':'') line))"

definition last_model_name :: "string \<Rightarrow> string list \<Rightarrow> string" where
  "last_model_name dflt ls =
     (case filter mentions_model_name ls of
        [] \<Rightarrow> dflt
      | m # ms \<Rightarrow> strip (colon_field (last (m # ms))))"

definition processor_lines :: "string list \<Rightarrow> string list" where
  "processor_lines ls =
     filter (\<lambda>l. \<not> mentions_model_name l \<and> startswith l ''processor'') ls"

text \<open>
  The reading "first matching line, everything after its first colon" and "every line
  that begins with processor", written out for comparison with the loop.
\<close>

definition first_model_name :: "string list \<Rightarrow> string" where
  "first_model_name ls =
     (case filter mentions_model_name ls of
        [] \<Rightarrow> ''Unknown''
      | m # ms \<Rightarrow> strip (tl (dropWhile (\<lambda>c. c \<noteq> CHR '':'') m)))"

definition lines_beginning_processor :: "string list \<Rightarrow> int" where
  "lines_beginning_processor ls = int (length (filter (\<lambda>l. startswith l ''processor'') ls))"

section \<open>Facts about the string primitives\<close>

lemma str_in_prefix: "prefix sub s \<Longrightarrow> str_in sub s"
  by (cases s) auto

lemma str_in_append: "str_in sub (p @ sub @ q)"
  by (induction p) (auto simp: str_in_prefix)

lemma str_in_iff: "str_in sub s \<longleftrightarrow> (\<exists>p q. s = p @ sub @ q)"
proof
  show "str_in sub s \<Longrightarrow> \<exists>p q. s = p @ sub @ q"
  proof (induction s)
    case Nil
    then show ?case by simp
  next
    case (Cons x xs)
    show ?case
    proof (cases "prefix sub (x # xs)")
      case True
      then obtain q where "x # xs = sub @ q" by (auto simp: prefix_def)
      then have "x # xs = [] @ sub @ q" by simp
      then show ?thesis by blast
    next
      case False
      with Cons.prems have "str_in sub xs" by simp
      with Cons.IH obtain p q where "xs = p @ sub @ q" by blast
      then have "x # xs = (x # p) @ sub @ q" by simp
      then show ?thesis by blast
    qed
  qed
next
  show "\<exists>p q. s = p @ sub @ q \<Longrightarrow> str_in sub s"
    by (auto simp: str_in_append)
qed

lemma split_on_hd: "\<exists>ps. split_on c s = takeWhile (\<lambda>x. x \<noteq> c) s # ps"
  by (induction s) auto

lemma split_on_cut:
  "c \<notin> set l \<Longrightarrow> split_on c (l @ c # r) = l # split_on c r"
  by (induction l) auto

lemma split_on_no_sep: "c \<notin> set l \<Longrightarrow> split_on c l = [l]"
  by (induction l) auto

lemma rstrip_keep: "\<not> isspace y \<Longrightarrow> rstrip (xs @ y # ys) = xs @ y # rstrip ys"
  by (simp add: rstrip_def dropWhile_append3)

lemma lstrip_keep: "\<not> isspace y \<Longrightarrow> lstrip (xs @ y # ys) = lstrip xs @ y # ys"
  by (simp add: lstrip_def dropWhile_append3)

lemma lstrip_subset: "set (lstrip s) \<subseteq> set s"
  by (auto simp: lstrip_def dest: set_dropWhileD)

lemma rstrip_subset: "set (rstrip s) \<subseteq> set s"
  by (auto simp: rstrip_def dest: set_dropWhileD)

lemma strip_subset: "set (strip s) \<subseteq> set s"
  using lstrip_subset rstrip_subset unfolding strip_def by blast

lemma split_ws_first:
  assumes "tok \<noteq> []" "\<forall>c\<in>set tok. \<not> isspace c" "isspace y"
  shows "\<exists>ws. split_ws (tok @ y # ys) = tok # ws"
proof -
  obtain t ts where t: "tok = t # ts" using assms(1) by (cases tok) auto
  with assms(2) have nt: "\<not> isspace t" by simp
  have d: "dropWhile isspace (tok @ y # ys) = t # (ts @ y # ys)" using t nt by simp
  have tw: "takeWhile (\<lambda>c. \<not> isspace c) (t # (ts @ y # ys)) = tok"
    using assms(2,3) t by (simp add: takeWhile_append2)
  have "split_ws (tok @ y # ys)
          = takeWhile (\<lambda>c. \<not> isspace c) (t # (ts @ y # ys))
            # split_ws (dropWhile (\<lambda>c. \<not> isspace c) (ts @ y # ys))"
    by (subst split_ws.simps) (simp only: d list.case)
  with tw show ?thesis by simp
qed

section \<open>The results reader on well-formed lines\<close>

lemma isspace_simps [simp]: "isspace CHR '' ''" "\<not> isspace CHR '':''" "\<not> isspace CHR ''S''"
  by (simp_all add: isspace_def whitespace_def)

lemma parse_line_result:
  assumes lbl: "CHR '':'' \<notin> set lbl"
    and tok: "tok \<noteq> []" "\<forall>c\<in>set tok. \<not> isspace c \<and> c \<noteq> CHR '':''"
    and v: "pyfloat tok = Some v"
  shows "parse_line pyfloat (lbl @ '': '' @ tok @ '' GFLOPS'' @ rest) = Inr (Some (strip lbl, v))"
proof -
  let ?line = "lbl @ '': '' @ tok @ '' GFLOPS'' @ rest"
  let ?R = "'' '' @ tok @ '' GFLOP''"
  have guard: "CHR '':'' \<in> set ?line \<and> str_in ''GFLOPS'' ?line"
  proof -
    have "?line = (lbl @ '': '' @ tok @ '' '') @ ''GFLOPS'' @ rest" by simp
    then have "str_in ''GFLOPS'' ?line" by (simp only: str_in_append)
    then show ?thesis by simp
  qed
  have l1: "lstrip ?line = lstrip lbl @ CHR '':'' # (?R @ CHR ''S'' # rest)"
    using lstrip_keep [of "CHR '':''" lbl "?R @ CHR ''S'' # rest"] by simp
  have "strip ?line = (lstrip lbl @ CHR '':'' # ?R) @ CHR ''S'' # rstrip rest"
    unfolding strip_def l1
    using rstrip_keep [of "CHR ''S''" "lstrip lbl @ CHR '':'' # ?R" rest] by simp
  then have s: "strip ?line = lstrip lbl @ CHR '':'' # (?R @ CHR ''S'' # rstrip rest)" by simp
  have nl: "CHR '':'' \<notin> set (lstrip lbl)" using lbl lstrip_subset by blast
  obtain ps where ps: "split_on CHR '':'' (?R @ CHR ''S'' # rstrip rest)
      = takeWhile (\<lambda>x. x \<noteq> CHR '':'') (?R @ CHR ''S'' # rstrip rest) # ps"
    using split_on_hd by blast
  have tw: "takeWhile (\<lambda>x. x \<noteq> CHR '':'') (?R @ CHR ''S'' # rstrip rest)
      = ?R @ CHR ''S'' # takeWhile (\<lambda>x. x \<noteq> CHR '':'') (rstrip rest)"
    using tok(2) by (simp add: takeWhile_append2)
  define p1 where "p1 = ?R @ CHR ''S'' # takeWhile (\<lambda>x. x \<noteq> CHR '':'') (rstrip rest)"
  have parts: "split_on CHR '':'' (strip ?line) = lstrip lbl # p1 # ps"
    unfolding s using split_on_cut [OF nl] ps tw by (simp add: p1_def)
  have sz: "strip (lstrip lbl) = strip lbl"
    by (simp add: strip_def lstrip_def)
  obtain t ts where t: "tok = t # ts" using tok(1) by (cases tok) auto
  with tok(2) have nt: "\<not> isspace t" by simp
  have "lstrip p1 = tok @ '' GFLOP'' @ CHR ''S'' # takeWhile (\<lambda>x. x \<noteq> CHR '':'') (rstrip rest)"
    using nt t by (simp add: p1_def lstrip_def)
  then have "strip p1 = (tok @ '' GFLOP'') @ CHR ''S'' # rstrip (takeWhile (\<lambda>x. x \<noteq> CHR '':'') (rstrip rest))"
    unfolding strip_def
    using rstrip_keep [of "CHR ''S''" "tok @ '' GFLOP''" "takeWhile (\<lambda>x. x \<noteq> CHR '':'') (rstrip rest)"]
    by simp
  then have sp: "strip p1 = tok @ CHR '' '' # (''GFLOPS'' @ rstrip (takeWhile (\<lambda>x. x \<noteq> CHR '':'') (rstrip rest)))"
    by simp
  obtain ws where ws: "split_ws (strip p1) = tok # ws"
    unfolding sp using split_ws_first [of tok "CHR '' ''"] tok by auto
  show ?thesis
    using guard parts ws v sz
    by (simp add: parse_line_def index_def Let_def del: split_ws.simps)
qed

lemma parse_line_other:
  "CHR '':'' \<notin> set s \<or> \<not> str_in ''GFLOPS'' s \<Longrightarrow> parse_line pyfloat s = Inr None"
  by (auto simp: parse_line_def)

lemma parse_line_render:
  "well_formed pyfloat x \<Longrightarrow> parse_line pyfloat (render x) = Inr (entry pyfloat x)"
proof (cases x)
  case (Result lbl tok rest)
  assume "well_formed pyfloat x"
  with Result obtain v where "pyfloat tok = Some v" "CHR '':'' \<notin> set lbl" "tok \<noteq> []"
    "\<forall>c\<in>set tok. \<not> isspace c \<and> c \<noteq> CHR '':''" by auto
  then show ?thesis using Result parse_line_result [of lbl tok pyfloat v rest] by simp
next
  case (Other s)
  assume "well_formed pyfloat x"
  with Other show ?thesis using parse_line_other [of s pyfloat] by simp
qed

lemma load_baseline_render:
  "list_all (well_formed pyfloat) xs \<Longrightarrow>
     load_baseline pyfloat m (map render xs)
       = Inr (m ++ map_of (rev (List.map_filter (entry pyfloat) xs)))"
proof (induction xs arbitrary: m)
  case Nil
  then show ?case by (simp add: List.map_filter_simps)
next
  case (Cons x xs)
  then have wf: "well_formed pyfloat x" and rest: "list_all (well_formed pyfloat) xs" by simp_all
  show ?case
  proof (cases "entry pyfloat x")
    case None
    then show ?thesis
      using parse_line_render [OF wf] Cons.IH [OF rest] by (simp add: List.map_filter_simps)
  next
    case (Some kv)
    obtain k v where kv: "kv = (k, v)" by (cases kv)
    have step: "load_baseline pyfloat m (map render (x # xs))
            = load_baseline pyfloat (m(k \<mapsto> v)) (map render xs)"
      using Some kv parse_line_render [OF wf] by simp
    have ih: "load_baseline pyfloat (m(k \<mapsto> v)) (map render xs)
            = Inr (m(k \<mapsto> v) ++ map_of (rev (List.map_filter (entry pyfloat) xs)))"
      by (rule Cons.IH [OF rest])
    have "m(k \<mapsto> v) ++ map_of (rev (List.map_filter (entry pyfloat) xs))
            = m ++ map_of (rev (List.map_filter (entry pyfloat) (x # xs)))"
      using Some kv by (simp add: List.map_filter_simps map_add_upd_left)
    with step ih show ?thesis by simp
  qed
qed

lemma map_of_rev_unique:
  assumes "(k, v) \<in> set es" and "\<forall>v'. (k, v') \<in> set es \<longrightarrow> v' = v"
  shows "map_of (rev es) k = Some v"
proof -
  have "k \<in> fst ` set (rev es)" using assms(1) by force
  then obtain v' where v': "map_of (rev es) k = Some v'"
    by (cases "map_of (rev es) k") (auto simp: map_of_eq_None_iff)
  then have "(k, v') \<in> set (rev es)" by (rule map_of_SomeD)
  with assms(2) v' show ?thesis by simp
qed

lemma map_of_rev_last:
  assumes "k \<notin> fst ` set post"
  shows "map_of (rev (pre @ (k, v) # post)) k = Some v"
proof -
  have "map_of (rev post) k = None" using assms by (simp add: map_of_eq_None_iff)
  then show ?thesis by (simp add: map_add_def)
qed

lemma entry_Some:
  "entry pyfloat x = Some (k, v)
     \<longleftrightarrow> (\<exists>lbl tok rest. x = Result lbl tok rest \<and> strip lbl = k \<and> pyfloat tok = Some v)"
  by (cases x) (auto split: option.splits)

lemma entry_mem:
  "(k, v) \<in> set (List.map_filter (entry pyfloat) xs)
     \<longleftrightarrow> (\<exists>x\<in>set xs. entry pyfloat x = Some (k, v))"
  by (induction xs) (auto split: option.splits)

lemma get_benchmark_data_render:
  assumes "list_all (well_formed pyfloat) xs" and "file_lines content = map render xs"
  shows "get_benchmark_data pyfloat now (Content content)
           = Inr \<lparr>baseline = map_of (rev (List.map_filter (entry pyfloat) xs)),
                  optimizations = fixed_optimizations, timestamp = now\<rparr>"
  using load_baseline_render [OF assms(1), of Map.empty] assms(2)
  by (simp add: get_benchmark_data_def exists_def read_file_def)

section \<open>The descriptor scan\<close>

lemma index_split_colon:
  assumes "CHR '':'' \<in> set l"
  shows "index (split_on CHR '':'' l) 1 = Inr (colon_field l)"
proof -
  let ?P = "\<lambda>c. c \<noteq> CHR '':''"
  have "dropWhile ?P l \<noteq> []" using assms by (simp add: dropWhile_eq_Nil_conv)
  moreover have "hd (dropWhile ?P l) = CHR '':''"
    using assms hd_dropWhile [of ?P l] by (auto simp: dropWhile_eq_Nil_conv)
  ultimately have d: "dropWhile ?P l = CHR '':'' # tl (dropWhile ?P l)"
    by (cases "dropWhile ?P l") auto
  have "l = takeWhile ?P l @ dropWhile ?P l" by simp
  then have l: "l = takeWhile ?P l @ CHR '':'' # tl (dropWhile ?P l)" using d by simp
  have n: "CHR '':'' \<notin> set (takeWhile ?P l)" by (auto dest: set_takeWhileD)
  obtain ps where ps: "split_on CHR '':'' (tl (dropWhile ?P l)) = colon_field l # ps"
    unfolding colon_field_def using split_on_hd by blast
  have "split_on CHR '':'' (takeWhile ?P l @ CHR '':'' # tl (dropWhile ?P l))
          = takeWhile ?P l # colon_field l # ps"
    using split_on_cut [OF n] ps by simp
  with l have "split_on CHR '':'' l = takeWhile ?P l # colon_field l # ps" by simp
  then show ?thesis by (simp add: index_def)
qed

lemma index_split_no_colon:
  "CHR '':'' \<notin> set l \<Longrightarrow> index (split_on CHR '':'' l) 1 = Inl IndexError"
  by (simp add: split_on_no_sep index_def)

lemma last_model_name_Cons:
  "last_model_name p (l # ls)
     = (if mentions_model_name l then last_model_name (strip (colon_field l)) ls
        else last_model_name p ls)"
  by (simp add: last_model_name_def split: list.splits)

lemma processor_lines_Cons:
  "processor_lines (l # ls)
     = (if \<not> mentions_model_name l \<and> startswith l ''processor'' then l # processor_lines ls
        else processor_lines ls)"
  by (simp add: processor_lines_def)

lemma scan_cpuinfo_result:
  assumes "\<forall>l\<in>set ls. mentions_model_name l \<longrightarrow> CHR '':'' \<in> set l"
  shows "scan_cpuinfo p c ls = Inr (last_model_name p ls, c + int (length (processor_lines ls)))"
  using assms
proof (induction ls arbitrary: p c)
  case Nil
  then show ?case by (simp add: last_model_name_def processor_lines_def)
next
  case (Cons l ls)
  then have rest: "\<forall>l\<in>set ls. mentions_model_name l \<longrightarrow> CHR '':'' \<in> set l" by simp
  show ?case
  proof (cases "mentions_model_name l")
    case True
    with Cons.prems have "CHR '':'' \<in> set l" by simp
    then have "index (split_on CHR '':'' l) 1 = Inr (colon_field l)" by (rule index_split_colon)
    then have "scan_cpuinfo p c (l # ls) = scan_cpuinfo (strip (colon_field l)) c ls"
      using True by (simp add: mentions_model_name_def)
    then show ?thesis
      using True Cons.IH [OF rest] by (simp add: last_model_name_Cons processor_lines_Cons)
  next
    case False
    then have "scan_cpuinfo p c (l # ls)
        = (if startswith l ''processor'' then scan_cpuinfo p (c + 1) ls else scan_cpuinfo p c ls)"
      by (simp add: mentions_model_name_def)
    then show ?thesis
      using False Cons.IH [OF rest] by (simp add: last_model_name_Cons processor_lines_Cons)
  qed
qed

lemma system_info_try_timestamp:
  "system_info_try now f = Inr info \<Longrightarrow> sys_timestamp info = Some now"
  by (auto simp: system_info_try_def split: sum.splits prod.splits)

lemma fallback_iff_raise:
  "get_system_info now f = fallback_info \<longleftrightarrow> (\<exists>e. system_info_try now f = Inl e)"
proof (cases "system_info_try now f")
  case (Inl e)
  then show ?thesis by (simp add: get_system_info_def)
next
  case (Inr info)
  then have "sys_timestamp info = Some now" by (rule system_info_try_timestamp)
  then have "info \<noteq> fallback_info" by (auto simp: fallback_info_def)
  with Inr show ?thesis by (simp add: get_system_info_def)
qed

lemma get_system_info_result:
  assumes "\<forall>l\<in>set (split_on CHR 0x0A cpuinfo). mentions_model_name l \<longrightarrow> CHR '':'' \<in> set l"
  shows "get_system_info now (Content cpuinfo)
           = \<lparr>processor = last_model_name ''Unknown'' (split_on CHR 0x0A cpuinfo),
              cores = int (length (processor_lines (split_on CHR 0x0A cpuinfo))),
              sys_timestamp = Some now\<rparr>"
  using scan_cpuinfo_result [OF assms, of "''Unknown''" 0]
  by (simp add: get_system_info_def system_info_try_def read_file_def)

section \<open>Raising paths of the handlers\<close>

lemma parse_line_bad_token:
  assumes "pyfloat ''N/A'' = None"
  shows "parse_line pyfloat ''Total: N/A GFLOPS\<newline>'' = Inl ValueError"
proof -
  have "split_ws ''N/A GFLOPS'' = [''N/A'', ''GFLOPS'']"
    by (simp add: isspace_def whitespace_def)
  then show ?thesis
    using assms
    by (simp add: parse_line_def index_def strip_def lstrip_def rstrip_def isspace_def
        whitespace_def del: split_ws.simps)
qed

lemma post_bad_length_raises:
  assumes "path req = ''/api/run-benchmark''" and "content_length req = Some h"
    and "pyint h = Some n" and "rfile_read alloc (rfile req) n = Inl e"
  shows "do_POST pyint loads alloc script_path req = Inl e"
  using assms by (simp add: do_POST_def)

lemma post_bad_body_raises:
  assumes "path req = ''/api/run-benchmark''" and "content_length req = Some h"
    and "pyint h = Some n" and "rfile_read alloc (rfile req) n = Inr post_data"
    and "loads post_data = Inl e"
  shows "do_POST pyint loads alloc script_path req = Inl e"
  using assms by (simp add: do_POST_def)

lemma post_not_a_dict_raises:
  assumes "path req = ''/api/run-benchmark''" and "content_length req = Some h"
    and "pyint h = Some n" and "rfile_read alloc (rfile req) n = Inr post_data"
    and "loads post_data = Inr (JArr vs)"
  shows "do_POST pyint loads alloc script_path req = Inl AttributeError"
  using assms by (simp add: do_POST_def dict_get_def)

lemma post_json_object_reply:
  assumes "path req = ''/api/run-benchmark''" and "content_length req = Some h"
    and "pyint h = Some n" and "rfile_read alloc (rfile req) n = Inr post_data"
    and "loads post_data = Inr (JObj kvs)"
  shows "do_POST pyint loads alloc script_path req
           = Inr (ApiResponse (RunResult
                \<lparr>status = ''started'',
                 benchmark_type = (case map_of kvs ''type'' of None \<Rightarrow> JStr ''baseline'' | Some v \<Rightarrow> v)\<rparr>),
                  ThreadStarted # run_async script_path)"
  using assms by (simp add: do_POST_def dict_get_def run_benchmark_def)

lemma run_benchmark_reply:
  "fst (run_benchmark script_path t) = \<lparr>status = ''started'', benchmark_type = t\<rparr>"
  by (simp add: run_benchmark_def)

lemma returned_optimizations_fixed:
  assumes "get_benchmark_data pyfloat now f = Inr d"
  shows "optimizations d = fixed_optimizations"
  using assms by (auto simp: get_benchmark_data_def split: if_splits sum.splits)

lemma unreadable_results_file_raises:
  "get_benchmark_data pyfloat now (Unreadable e) = Inl e"
  by (simp add: get_benchmark_data_def exists_def read_file_def)

section \<open>The claims\<close>

text \<open>
  C1. Take a results file whose lines are result lines \<open><label>: <float> GFLOPS<rest>\<close>
  (the label free of colons, the token one that \<open>float\<close> accepts) and lines that lack a
  colon or the substring GFLOPS. Then \<open>get_benchmark_data\<close> returns; its baseline maps
  the trimmed label of a result line to the float of that line, whenever the lines carrying
  that label agree on the value; and the keys of the baseline are the labels of the result
  lines only, so the other lines add no entry. The witness is the file
  \<open>small: 2.59 GFLOPS (target)\<close>, \<open>bogus line\<close>, with baseline \<open>{"small": 2.59}\<close>.
\<close>

theorem baseline_of_well_formed_lines:
  assumes wf: "list_all (well_formed pyfloat) xs"
    and lines: "file_lines content = map render xs"
  shows "\<exists>b. get_benchmark_data pyfloat now (Content content)
               = Inr \<lparr>baseline = b, optimizations = fixed_optimizations, timestamp = now\<rparr>
           \<and> (\<forall>lbl tok rest.
                 Result lbl tok rest \<in> set xs
                 \<and> (\<forall>lbl' tok' rest'. Result lbl' tok' rest' \<in> set xs \<and> strip lbl' = strip lbl
                        \<longrightarrow> pyfloat tok' = pyfloat tok)
                 \<longrightarrow> b (strip lbl) = pyfloat tok)
           \<and> dom b = {strip lbl | lbl tok rest. Result lbl tok rest \<in> set xs}"
proof -
  let ?es = "List.map_filter (entry pyfloat) xs"
  let ?b = "map_of (rev ?es)"
  have tok_ok: "\<exists>v. pyfloat tok = Some v" if "Result lbl tok rest \<in> set xs" for lbl tok rest
  proof -
    have "well_formed pyfloat (Result lbl tok rest)" using wf that unfolding list_all_iff by blast
    then show ?thesis by simp
  qed
  have one: "?b (strip lbl) = pyfloat tok"
    if r: "Result lbl tok rest \<in> set xs"
      and u: "\<forall>lbl' tok' rest'. Result lbl' tok' rest' \<in> set xs \<and> strip lbl' = strip lbl
                 \<longrightarrow> pyfloat tok' = pyfloat tok"
    for lbl tok rest
  proof -
    obtain v where v: "pyfloat tok = Some v" using tok_ok [OF r] by auto
    have "entry pyfloat (Result lbl tok rest) = Some (strip lbl, v)" using v by simp
    with r have m: "(strip lbl, v) \<in> set ?es" unfolding entry_mem by blast
    have "\<forall>v'. (strip lbl, v') \<in> set ?es \<longrightarrow> v' = v"
    proof (intro allI impI)
      fix v' assume "(strip lbl, v') \<in> set ?es"
      then obtain x where x: "x \<in> set xs" "entry pyfloat x = Some (strip lbl, v')"
        unfolding entry_mem by blast
      from x(2) obtain lbl' tok' rest' where x': "x = Result lbl' tok' rest'"
        "strip lbl' = strip lbl" "pyfloat tok' = Some v'" unfolding entry_Some by blast
      with x(1) u have "pyfloat tok' = pyfloat tok" by blast
      with x'(3) v show "v' = v" by simp
    qed
    with m have "?b (strip lbl) = Some v" by (rule map_of_rev_unique)
    with v show ?thesis by simp
  qed
  have d: "dom ?b = {strip lbl | lbl tok rest. Result lbl tok rest \<in> set xs}"
  proof (intro set_eqI iffI)
    fix k assume "k \<in> dom ?b"
    then have "k \<in> fst ` set ?es" by (simp add: dom_map_of_conv_image_fst)
    then obtain v where "(k, v) \<in> set ?es" by force
    then obtain x where x: "x \<in> set xs" "entry pyfloat x = Some (k, v)"
      unfolding entry_mem by blast
    from x(2) obtain lbl tok rest where "x = Result lbl tok rest" "strip lbl = k"
      unfolding entry_Some by blast
    with x(1) show "k \<in> {strip lbl | lbl tok rest. Result lbl tok rest \<in> set xs}" by blast
  next
    fix k assume "k \<in> {strip lbl | lbl tok rest. Result lbl tok rest \<in> set xs}"
    then obtain lbl tok rest where r: "Result lbl tok rest \<in> set xs" and k: "k = strip lbl"
      by blast
    obtain v where v: "pyfloat tok = Some v" using tok_ok [OF r] by auto
    have "entry pyfloat (Result lbl tok rest) = Some (k, v)" using v k by simp
    with r have "(k, v) \<in> set ?es" unfolding entry_mem by blast
    then have "k \<in> fst ` set ?es" by force
    then show "k \<in> dom ?b" by (simp add: dom_map_of_conv_image_fst)
  qed
  have g: "get_benchmark_data pyfloat now (Content content)
             = Inr \<lparr>baseline = ?b, optimizations = fixed_optimizations, timestamp = now\<rparr>"
    by (rule get_benchmark_data_render [OF wf lines])
  show ?thesis
  proof (intro exI [of _ ?b] conjI allI impI)
    show "get_benchmark_data pyfloat now (Content content)
             = Inr \<lparr>baseline = ?b, optimizations = fixed_optimizations, timestamp = now\<rparr>"
      by (rule g)
  next
    fix lbl tok rest
    assume "Result lbl tok rest \<in> set xs
                 \<and> (\<forall>lbl' tok' rest'. Result lbl' tok' rest' \<in> set xs \<and> strip lbl' = strip lbl
                        \<longrightarrow> pyfloat tok' = pyfloat tok)"
    then show "?b (strip lbl) = pyfloat tok" using one by blast
  next
    show "dom ?b = {strip lbl | lbl tok rest. Result lbl tok rest \<in> set xs}" by (rule d)
  qed
qed


theorem baseline_of_well_formed_lines_witness:
  "get_benchmark_data (\<lambda>s. if s = ''2.59'' then Some (2.59 :: real) else None) 0
       (Content ''small: 2.59 GFLOPS (target)\<newline>bogus line'')
     = Inr \<lparr>baseline = [''small'' \<mapsto> 2.59], optimizations = fixed_optimizations, timestamp = 0\<rparr>"
proof -
  let ?pf = "\<lambda>s. if s = ''2.59'' then Some (2.59 :: real) else None"
  let ?xs = "[Result ''small'' ''2.59'' '' (target)\<newline>'', Other ''bogus line'']"
  have wf: "list_all (well_formed ?pf) ?xs"
    by (simp add: isspace_def whitespace_def)
  have fl: "file_lines ''small: 2.59 GFLOPS (target)\<newline>bogus line'' = map render ?xs"
    by simp
  have st: "strip ''small'' = ''small''"
    by (simp add: strip_def lstrip_def rstrip_def isspace_def whitespace_def)
  from baseline_of_well_formed_lines [OF wf fl, of 0]
  obtain b where g: "get_benchmark_data ?pf 0 (Content ''small: 2.59 GFLOPS (target)\<newline>bogus line'')
               = Inr \<lparr>baseline = b, optimizations = fixed_optimizations, timestamp = 0\<rparr>"
    and one: "\<forall>lbl tok rest.
                 Result lbl tok rest \<in> set ?xs
                 \<and> (\<forall>lbl' tok' rest'. Result lbl' tok' rest' \<in> set ?xs \<and> strip lbl' = strip lbl
                        \<longrightarrow> ?pf tok' = ?pf tok)
                 \<longrightarrow> b (strip lbl) = ?pf tok"
    and d: "dom b = {strip lbl | lbl tok rest. Result lbl tok rest \<in> set ?xs}"
    by blast
  have "b (strip ''small'') = ?pf ''2.59''"
    using one [rule_format, of "''small''" "''2.59''" "'' (target)\<newline>''"] by simp
  then have b1: "b ''small'' = Some 2.59" using st by simp
  have "dom b = {''small''}" using d st by simp
  then have "b = [''small'' \<mapsto> 2.59]"
    using b1 by (intro ext) (auto simp: domIff)
  with g show ?thesis by simp
qed

text \<open>
  C2. A line that passes the guard (it has a colon and the substring GFLOPS) but has no
  token after the colon is not skipped: indexing the empty token list raises IndexError,
  nothing catches it, and \<open>GET /api/data\<close> ends in that exception.
\<close>

theorem malformed_line_raises:
  "parse_line pyfloat ''GFLOPS results:\<newline>'' = Inl IndexError
   \<and> get_benchmark_data pyfloat now (Content ''GFLOPS results:\<newline>'') = Inl IndexError
   \<and> do_GET pyfloat now (Content ''GFLOPS results:\<newline>'') cpuinfo_file
        \<lparr>path = ''/api/data'', content_length = None, rfile = []\<rparr> = Inl IndexError"
proof -
  have p: "parse_line pyfloat ''GFLOPS results:\<newline>'' = Inl IndexError"
    by (simp add: parse_line_def index_def strip_def lstrip_def rstrip_def isspace_def
        whitespace_def)
  then have g: "get_benchmark_data pyfloat now (Content ''GFLOPS results:\<newline>'') = Inl IndexError"
    by (simp add: get_benchmark_data_def exists_def read_file_def)
  then have "do_GET pyfloat now (Content ''GFLOPS results:\<newline>'') cpuinfo_file
        \<lparr>path = ''/api/data'', content_length = None, rfile = []\<rparr> = Inl IndexError"
    by (simp add: do_GET_def)
  with p g show ?thesis by simp
qed

text \<open>
  C3. With the results file missing, \<open>get_benchmark_data\<close> returns an empty baseline and
  the fixed list of optimizations, which has three entries with the ranks 1, 2 and 3.
  The list is not returned whatever the file holds: on a file with the line
  \<open>GFLOPS results:\<close> the loop raises IndexError and the function returns nothing.
\<close>

theorem optimizations_lost_on_malformed_line:
  "get_benchmark_data pyfloat now Missing
     = Inr \<lparr>baseline = Map.empty, optimizations = fixed_optimizations, timestamp = now\<rparr>
   \<and> length fixed_optimizations = 3
   \<and> map rank fixed_optimizations = [1, 2, 3]
   \<and> get_benchmark_data pyfloat now (Content ''GFLOPS results:\<newline>'') = Inl IndexError"
proof -
  have a: "get_benchmark_data pyfloat now Missing
     = Inr \<lparr>baseline = Map.empty, optimizations = fixed_optimizations, timestamp = now\<rparr>"
    by (simp add: get_benchmark_data_def exists_def)
  have b: "length fixed_optimizations = 3" "map rank fixed_optimizations = [1, 2, 3]"
    by (simp_all add: fixed_optimizations_def)
  have "split_on CHR '':'' (strip ''GFLOPS results:\<newline>'') = [''GFLOPS results'', []]"
    by (simp add: strip_def lstrip_def rstrip_def isspace_def whitespace_def)
  then have "parse_line pyfloat ''GFLOPS results:\<newline>'' = Inl IndexError"
    by (simp add: parse_line_def index_def strip_def lstrip_def rstrip_def)
  then have c: "get_benchmark_data pyfloat now (Content ''GFLOPS results:\<newline>'') = Inl IndexError"
    by (simp add: get_benchmark_data_def exists_def read_file_def)
  from a b c show ?thesis by simp
qed

text \<open>
  C4 as amended. When every line of the descriptor that contains "model name" (in any
  case, anywhere in the line) has a colon, the processor name is taken from the last such
  line, as the text between its first colon and its next colon or its end, trimmed
  ("Unknown" when there is no such line), and the core count is the number of lines that
  begin with "processor" and do not contain "model name".
\<close>

theorem processor_from_last_line:
  assumes "\<forall>l\<in>set (split_on CHR 0x0A cpuinfo). mentions_model_name l \<longrightarrow> CHR '':'' \<in> set l"
  shows "get_system_info now (Content cpuinfo)
           = \<lparr>processor = last_model_name ''Unknown'' (split_on CHR 0x0A cpuinfo),
              cores = int (length (processor_lines (split_on CHR 0x0A cpuinfo))),
              sys_timestamp = Some now\<rparr>"
  using assms by (rule get_system_info_result)

theorem processor_from_last_line_witness:
  "get_system_info (0 :: real)
     (Content ''processor : 0\<newline>model name : Cortex-A55\<newline>processor : 1\<newline>model name : Cortex-A76\<newline>'')
     = \<lparr>processor = ''Cortex-A76'', cores = 2, sys_timestamp = Some 0\<rparr>"
proof -
  let ?c = "''processor : 0\<newline>model name : Cortex-A55\<newline>processor : 1\<newline>model name : Cortex-A76\<newline>''"
  have a: "\<forall>l\<in>set (split_on CHR 0x0A ?c). mentions_model_name l \<longrightarrow> CHR '':'' \<in> set l"
    by code_simp
  have p: "last_model_name ''Unknown'' (split_on CHR 0x0A ?c) = ''Cortex-A76''"
    by code_simp
  have n: "int (length (processor_lines (split_on CHR 0x0A ?c))) = 2"
    by code_simp
  from processor_from_last_line [OF a, of 0] p n show ?thesis by simp
qed

text \<open>
  C4 as stated fails: with two lines containing "model name" the loop keeps the name of
  the later one, takes only the text up to the next colon, and does not count a line
  beginning with "processor" that also contains "model name"; the first line's name
  would be \<open>A\<close> and the lines beginning with "processor" are one.
\<close>

theorem processor_first_line_counterexample:
  "processor (get_system_info (0 :: real)
       (Content ''model name : A\<newline>processor model name : B: C'')) = ''B''
   \<and> first_model_name (split_on CHR 0x0A ''model name : A\<newline>processor model name : B: C'') = ''A''
   \<and> cores (get_system_info (0 :: real)
       (Content ''model name : A\<newline>processor model name : B: C'')) = 0
   \<and> lines_beginning_processor
        (split_on CHR 0x0A ''model name : A\<newline>processor model name : B: C'') = 1"
  by code_simp

text \<open>
  C5. Whenever the body of the \<open>try\<close> block raises, while reading the descriptor or while
  scanning it, \<open>get_system_info\<close> returns the dict with processor "Neoverse System" and
  16 cores and no timestamp key, and \<open>GET /api/system\<close> answers 200 with that dict.
\<close>

theorem system_info_fallback:
  assumes "system_info_try now cpuinfo_file = Inl e"
  shows "get_system_info now cpuinfo_file
           = \<lparr>processor = ''Neoverse System'', cores = 16, sys_timestamp = None\<rparr>
         \<and> do_GET pyfloat now baseline_file cpuinfo_file
              \<lparr>path = ''/api/system'', content_length = h, rfile = b\<rparr>
           = Inr (ApiResponse (SystemInfo
               \<lparr>processor = ''Neoverse System'', cores = 16, sys_timestamp = None\<rparr>))"
  using assms by (simp add: get_system_info_def fallback_info_def do_GET_def)

theorem system_info_fallback_witness:
  "system_info_try (0::real) (Content ''model name'') = Inl IndexError
   \<and> get_system_info (0::real) (Content ''model name'')
       = \<lparr>processor = ''Neoverse System'', cores = 16, sys_timestamp = None\<rparr>"
proof -
  have h: "system_info_try (0::real) (Content ''model name'') = Inl IndexError"
    by code_simp
  show ?thesis using h system_info_fallback [OF h] by simp
qed

text \<open>
  C6. Not every request body is acknowledged: a POST to \<open>/api/run-benchmark\<close> with the
  body \<open>hello\<close> (Content-Length 5, which \<open>int\<close> reads as 5, the buffer granted) ends in
  the JSONDecodeError that \<open>json.loads\<close> raises; \<open>run_benchmark\<close> is not called and
  nothing is sent.
\<close>

theorem non_json_body_not_acknowledged:
  assumes "pyint ''5'' = Some 5" and "alloc 5 = None" and "loads ''hello'' = Inl JSONDecodeError"
  shows "do_POST pyint loads alloc script_path
           \<lparr>path = ''/api/run-benchmark'', content_length = Some ''5'', rfile = ''hello''\<rparr>
         = Inl JSONDecodeError"
proof -
  have "rfile_read alloc ''hello'' 5 = Inr ''hello''"
    using assms(2) by (simp add: rfile_read_def)
  then show ?thesis
    using assms(1,3) by (simp add: do_POST_def)
qed

theorem non_json_body_not_acknowledged_witness:
  "do_POST (\<lambda>h. if h = ''5'' then Some 5 else None)
     (\<lambda>b. if b = ''{}'' then Inr (JObj [] :: real json) else Inl JSONDecodeError)
     (\<lambda>n. None) (Present (Inr 0))
     \<lparr>path = ''/api/run-benchmark'', content_length = Some ''5'', rfile = ''hello''\<rparr>
   = Inl JSONDecodeError"
  by (rule non_json_body_not_acknowledged) simp_all

text \<open>
  C7. A POST to \<open>/api/run-benchmark\<close> that carries no body and no Content-Length header
  is not answered with status 200: \<open>int(None)\<close> raises TypeError in the handler, which
  sends nothing.
\<close>

theorem post_without_body_raises:
  "do_POST pyint loads alloc script_path
     \<lparr>path = ''/api/run-benchmark'', content_length = None, rfile = []\<rparr> = Inl TypeError"
  by (simp add: do_POST_def)

text \<open>
  C8. A POST whose path is not \<open>/api/run-benchmark\<close> is answered with 404; the handler
  starts no thread, runs no script and causes no other event.
\<close>

theorem post_unknown_path_404:
  "path req \<noteq> ''/api/run-benchmark'' \<Longrightarrow>
     do_POST pyint loads alloc script_path req = Inr (ErrorResponse 404, [])
     \<and> status_code (ErrorResponse 404 :: 'f response) = Some 404"
  by (simp add: do_POST_def)

theorem post_unknown_path_404_witness:
  "path \<lparr>path = ''/api/data'', content_length = Some ''2'', rfile = ''{}''\<rparr> \<noteq> ''/api/run-benchmark''
   \<and> do_POST (\<lambda>s. Some 2) (\<lambda>s. Inr (JObj [] :: real json)) (\<lambda>n. None) (Present (Inr 0))
        \<lparr>path = ''/api/data'', content_length = Some ''2'', rfile = ''{}''\<rparr>
      = Inr (ErrorResponse 404, [])"
  using post_unknown_path_404 [of "\<lparr>path = ''/api/data'', content_length = Some ''2'', rfile = ''{}''\<rparr>"
      "\<lambda>s. Some 2" "\<lambda>s. Inr (JObj [] :: real json)" "\<lambda>n. None" "Present (Inr 0)"]
  by simp

text \<open>
  C9. When a label stands on two result lines of a results file (all of whose lines are
  result lines or lines without colon or GFLOPS), and no result line after the second
  carries that label, the baseline holds the value of the second, the last such line:
  a later line overwrites the entry of an earlier one.
\<close>

theorem last_line_wins:
  assumes wf: "list_all (well_formed pyfloat) xs"
    and lines: "file_lines content = map render xs"
    and xs: "xs = pre @ Result lbl1 tok1 rest1 # mid @ Result lbl2 tok2 rest2 # post"
    and same: "strip lbl1 = strip lbl2"
    and last: "\<forall>lbl tok rest. Result lbl tok rest \<in> set post \<longrightarrow> strip lbl \<noteq> strip lbl2"
  shows "\<exists>d. get_benchmark_data pyfloat now (Content content) = Inr d
           \<and> baseline d (strip lbl1) = pyfloat tok2"
proof -
  let ?es = "List.map_filter (entry pyfloat)"
  have "well_formed pyfloat (Result lbl2 tok2 rest2)"
    using wf xs unfolding list_all_iff by simp
  then obtain v where v: "pyfloat tok2 = Some v" by auto
  have split: "?es xs = ?es (pre @ Result lbl1 tok1 rest1 # mid) @ (strip lbl2, v) # ?es post"
    using v unfolding xs by (simp add: List.map_filter_def)
  have "strip lbl2 \<notin> fst ` set (?es post)"
  proof
    assume "strip lbl2 \<in> fst ` set (?es post)"
    then obtain v' where "(strip lbl2, v') \<in> set (?es post)" by force
    then obtain x where x: "x \<in> set post" "entry pyfloat x = Some (strip lbl2, v')"
      unfolding entry_mem by blast
    from x(2) obtain lbl tok rest where "x = Result lbl tok rest" "strip lbl = strip lbl2"
      unfolding entry_Some by blast
    with x(1) last show False by blast
  qed
  then have "map_of (rev (?es xs)) (strip lbl2) = Some v"
    unfolding split by (rule map_of_rev_last)
  then show ?thesis
    using get_benchmark_data_render [OF wf lines, of now] v same by simp
qed

theorem last_line_wins_witness:
  "\<exists>d. get_benchmark_data
          (\<lambda>s. if s = ''1.25'' then Some (1.25 :: real) else if s = ''2.59'' then Some 2.59 else None) 0
          (Content ''small: 1.25 GFLOPS\<newline>tiny: 1.25 GFLOPS\<newline>small: 2.59 GFLOPS\<newline>'') = Inr d
        \<and> baseline d ''small'' = Some 2.59"
proof -
  let ?pf = "\<lambda>s. if s = ''1.25'' then Some (1.25 :: real) else if s = ''2.59'' then Some 2.59 else None"
  let ?xs = "[Result ''small'' ''1.25'' ''\<newline>'', Result ''tiny'' ''1.25'' ''\<newline>'',
              Result ''small'' ''2.59'' ''\<newline>'']"
  have wf: "list_all (well_formed ?pf) ?xs"
    by (simp add: isspace_def whitespace_def)
  have fl: "file_lines ''small: 1.25 GFLOPS\<newline>tiny: 1.25 GFLOPS\<newline>small: 2.59 GFLOPS\<newline>''
              = map render ?xs"
    by simp
  have st: "strip ''small'' = ''small''"
    by (simp add: strip_def lstrip_def rstrip_def isspace_def whitespace_def)
  have xs: "?xs = [] @ Result ''small'' ''1.25'' ''\<newline>'' # [Result ''tiny'' ''1.25'' ''\<newline>'']
                  @ Result ''small'' ''2.59'' ''\<newline>'' # []"
    by simp
  have "\<exists>d. get_benchmark_data ?pf 0
          (Content ''small: 1.25 GFLOPS\<newline>tiny: 1.25 GFLOPS\<newline>small: 2.59 GFLOPS\<newline>'') = Inr d
        \<and> baseline d (strip ''small'') = ?pf ''2.59''"
    by (rule last_line_wins [OF wf fl xs]) simp_all
  then show ?thesis using st by simp
qed

text \<open>
  C10. When the descriptor is readable and none of its lines contains "model name",
  \<open>get_system_info\<close> returns processor "Unknown", the number of lines beginning with
  "processor" as cores, and a timestamp; cores is 0 when no line begins with "processor";
  this is not the fallback dict, which is returned exactly when the \<open>try\<close> block raises.
\<close>

theorem unmatched_descriptor_is_unknown:
  assumes "\<forall>l\<in>set (split_on CHR 0x0A cpuinfo). \<not> mentions_model_name l"
  shows "get_system_info now (Content cpuinfo)
           = \<lparr>processor = ''Unknown'',
              cores = int (length (filter (\<lambda>l. startswith l ''processor'')
                                          (split_on CHR 0x0A cpuinfo))),
              sys_timestamp = Some now\<rparr>
         \<and> ((\<forall>l\<in>set (split_on CHR 0x0A cpuinfo). \<not> startswith l ''processor'')
              \<longrightarrow> get_system_info now (Content cpuinfo)
                    = \<lparr>processor = ''Unknown'', cores = 0, sys_timestamp = Some now\<rparr>)
         \<and> get_system_info now (Content cpuinfo) \<noteq> fallback_info
         \<and> (\<forall>f. get_system_info now f = fallback_info \<longleftrightarrow> (\<exists>e. system_info_try now f = Inl e))"
proof -
  let ?ls = "split_on CHR 0x0A cpuinfo"
  have colon: "\<forall>l\<in>set ?ls. mentions_model_name l \<longrightarrow> CHR '':'' \<in> set l"
    using assms by simp
  have "filter mentions_model_name ?ls = []" using assms by (simp add: filter_empty_conv)
  then have name: "last_model_name ''Unknown'' ?ls = ''Unknown''"
    by (simp add: last_model_name_def)
  have "processor_lines ?ls = filter (\<lambda>l. startswith l ''processor'') ?ls"
    unfolding processor_lines_def using assms by (intro filter_cong) auto
  with name have r: "get_system_info now (Content cpuinfo)
           = \<lparr>processor = ''Unknown'',
              cores = int (length (filter (\<lambda>l. startswith l ''processor'') ?ls)),
              sys_timestamp = Some now\<rparr>"
    using get_system_info_result [OF colon, of now] by simp
  have z: "get_system_info now (Content cpuinfo)
             = \<lparr>processor = ''Unknown'', cores = 0, sys_timestamp = Some now\<rparr>"
    if "\<forall>l\<in>set ?ls. \<not> startswith l ''processor''"
  proof -
    from that have "filter (\<lambda>l. startswith l ''processor'') ?ls = []"
      by (simp add: filter_empty_conv)
    with r show ?thesis by simp
  qed
  have nf: "get_system_info now (Content cpuinfo) \<noteq> fallback_info"
    unfolding r by (simp add: fallback_info_def)
  have "\<forall>f. get_system_info now f = fallback_info \<longleftrightarrow> (\<exists>e. system_info_try now f = Inl e)"
    by (simp add: fallback_iff_raise)
  with r z nf show ?thesis by blast
qed

theorem unmatched_descriptor_is_unknown_witness:
  "get_system_info (0 :: real) (Content ''processor : 0\<newline>BogoMIPS : 50.00\<newline>'')
     = \<lparr>processor = ''Unknown'', cores = 1, sys_timestamp = Some 0\<rparr>
   \<and> get_system_info (0 :: real) (Content [])
     = \<lparr>processor = ''Unknown'', cores = 0, sys_timestamp = Some 0\<rparr>"
proof -
  have a: "\<forall>l\<in>set (split_on CHR 0x0A ''processor : 0\<newline>BogoMIPS : 50.00\<newline>''). \<not> mentions_model_name l"
    by code_simp
  have n: "int (length (filter (\<lambda>l. startswith l ''processor'')
                  (split_on CHR 0x0A ''processor : 0\<newline>BogoMIPS : 50.00\<newline>''))) = 1"
    by code_simp
  have b: "\<forall>l\<in>set (split_on CHR 0x0A []). \<not> mentions_model_name l"
    by code_simp
  have c: "\<forall>l\<in>set (split_on CHR 0x0A []). \<not> startswith l ''processor''"
    by code_simp
  note one = unmatched_descriptor_is_unknown [OF a, of 0, THEN conjunct1]
  note two = unmatched_descriptor_is_unknown [OF b, of 0, THEN conjunct2, THEN conjunct1,
      THEN mp, OF c]
  from one n two show ?thesis by simp
qed

end
